theory Spec2Isabelle
  imports Main "HOL-Library.Finite_Map"
begin

section \<open>The fingerprint store of fileCacher.go\<close>

text \<open>
  The source file holds two revisions of the same store, one after the other. They differ
  in the names of the exported fields, in a constructor \<open>NewFileCache\<close> and a method
  \<open>WriteTo\<close> that only the later one has, in a debug message of \<open>IsChanged\<close>, and in
  \<open>saveToFile\<close>, where the later revision tightens the permissions of the target after the
  rename. Where the revisions differ in what they compute, the model takes the revision
  as a parameter. One difference is left out: the later \<open>getCache\<close> assigns a fresh mutex
  to \<open>cacheLock\<close> when \<open>stateCache\<close> is nil. That assignment reads and writes neither
  the table, the flag nor a file, so no result, store or file of the model depends on it;
  it does matter to the lock, and the one statement below that says an operation keeps to
  the lock discipline is made for the earlier revision or a table that is not nil.
\<close>

datatype revision = Rev1 | Rev2

subsection \<open>Data\<close>

text \<open>
  A Go \<open>map[string]string\<close> is a finite map; a nil map is \<open>None\<close> in the field
  \<open>stateCache\<close>. File contents and Go strings are byte strings.
\<close>

type_synonym table = "(string, string) fmap"

type_synonym filesystem = "string \<rightharpoonup> string"

text \<open>
  \<open>PushModel\<close> is an interface: the store calls its identifier accessor and hands the value
  to \<open>json.NewEncoder(buf).Encode\<close>. An entity is modelled by these two observations:
  its identifier, and the bytes the JSON encoder writes for it (\<open>None\<close> when encoding
  returns an error).
\<close>

record PushModel =
  GetId :: string
  Marshal :: "string option"

text \<open>
  The fields of \<open>FileCache\<close>. \<open>CheckSum\<close> is the method \<open>SumBytes\<close> of the configured
  hash. The logger is left out (a message changes no state); the mutex appears as the
  events \<open>Lock\<close> and \<open>Unlock\<close> below.
\<close>

record FileCache =
  Filename :: string
  CheckSum :: "string \<Rightarrow> string"
  stateCache :: "table option"
  isDirty :: bool

text \<open>The errors built by \<open>fmt.Errorf\<close>, one for each message of the source.\<close>

datatype error =
  CreateTempFailed | EncodeFailed | CloseFailed | RenameFailed | OpenFailed | DecodeFailed

text \<open>The errors of the JSON decoder: \<open>io.EOF\<close>, and any other one.\<close>

datatype json_error = EOF | SyntaxError

text \<open>
  What a call does to the lock, to the two guarded fields and to the file system is
  recorded as a trace of events, in program order. A write of the flag carries the value
  written.
\<close>

datatype syscall = TempFile | Encode | Close | Remove | Rename | Chmod | OpenFile | Decode

datatype event = Lock | Unlock | RdDirty | WrDirty bool | RdCache | WrCache | IO syscall

text \<open>
  Everything outside the repository that a call depends on: the JSON library's encoding of
  a table and its decoding of a file, and the outcome of each system call whose error the
  source inspects. \<open>TempFile_suffix\<close> is the random suffix \<open>ioutil.TempFile\<close> appends to
  the pattern; \<open>Encode_written\<close> is how many bytes reached the temporary file when
  encoding fails. The source discards the error of \<open>os.Remove\<close> (\<open>_ =\<close>), but a removal
  that fails leaves the file where it is: \<open>Remove_fails\<close>. The \<open>Close\<close> after a failed
  encode, whose error is discarded too, and \<open>os.Chmod\<close>, whose failure is only logged,
  change no contents of any file whether they fail or not.
\<close>

record env =
  jsonEncode :: "table \<Rightarrow> string"
  jsonDecode :: "string \<Rightarrow> json_error + table"
  TempFile_fails :: bool
  TempFile_suffix :: string
  Encode_fails :: bool
  Encode_written :: nat
  Close_fails :: bool
  Rename_fails :: bool
  Remove_fails :: bool
  OpenFile_fails :: bool

text \<open>The state a call runs in: the store, the files by path, and the events so far.\<close>

record world =
  store :: FileCache
  disk :: filesystem
  trace :: "event list"

subsection \<open>Access to the store\<close>

definition emit :: "event \<Rightarrow> world \<Rightarrow> world" where
  "emit e w = w\<lparr>trace := trace w @ [e]\<rparr>"

definition rdDirty :: "world \<Rightarrow> bool \<times> world" where
  "rdDirty w = (isDirty (store w), emit RdDirty w)"

definition wrDirty :: "bool \<Rightarrow> world \<Rightarrow> world" where
  "wrDirty b w = emit (WrDirty b) (w\<lparr>store := (store w)\<lparr>isDirty := b\<rparr>\<rparr>)"

definition wrCache :: "table \<Rightarrow> world \<Rightarrow> world" where
  "wrCache t w = emit WrCache (w\<lparr>store := (store w)\<lparr>stateCache := Some t\<rparr>\<rparr>)"

text \<open>\<open>getCache\<close>: a nil map is replaced by an empty one, the map is returned.\<close>

definition getCache :: "world \<Rightarrow> table \<times> world" where
  "getCache w =
     (case stateCache (store w) of
        None \<Rightarrow> (fmempty, wrCache fmempty (emit RdCache w))
      | Some t \<Rightarrow> (t, emit RdCache w))"

text \<open>Go's \<open>m[k]\<close>: the zero value, the empty string, for a missing key.\<close>

definition index :: "table \<Rightarrow> string \<Rightarrow> string" where
  "index t k = (case fmlookup t k of None \<Rightarrow> [] | Some v \<Rightarrow> v)"

definition makeCheckSum :: "FileCache \<Rightarrow> PushModel \<Rightarrow> string" where
  "makeCheckSum fc v = (case Marshal v of None \<Rightarrow> [] | Some b \<Rightarrow> CheckSum fc b)"

definition NewFileCache :: "string \<Rightarrow> (string \<Rightarrow> string) \<Rightarrow> FileCache" where
  "NewFileCache sf cs =
     \<lparr>Filename = sf, CheckSum = cs, stateCache = Some fmempty, isDirty = False\<rparr>"

subsection \<open>Operations without file access\<close>

definition IsChanged :: "PushModel \<Rightarrow> world \<Rightarrow> bool \<times> world" where
  "IsChanged m w =
     (let w = emit Lock w;
          (c, w) = getCache w
      in if length (index c (GetId m)) = 0 then (True, emit Unlock w)
         else
           let (c, w) = getCache w;
               saved = index c (GetId m);
               generated = makeCheckSum (store w) m
           in (saved \<noteq> generated, emit Unlock w))"

definition Put :: "PushModel \<Rightarrow> world \<Rightarrow> world" where
  "Put m w =
     (let w = emit Lock w;
          (c, w) = getCache w;
          w = wrCache (fmupd (GetId m) (makeCheckSum (store w) m) c) w;
          w = wrDirty True w
      in emit Unlock w)"

text \<open>
  \<open>Size\<close> converts \<open>len\<close> of the map to \<open>int64\<close>; the number of keys of a map in
  memory is far below \<open>2^63\<close>, and the model returns it as an integer.
\<close>

definition Size :: "world \<Rightarrow> int \<times> world" where
  "Size w =
     (let w = emit Lock w;
          (c, w) = getCache w
      in (int (fcard (fmdom c)), emit Unlock w))"

definition Get :: "string \<Rightarrow> world \<Rightarrow> string \<times> world" where
  "Get ident w =
     (let w = emit Lock w;
          (c, w) = getCache w
      in (index c ident, emit Unlock w))"

subsection \<open>The file system\<close>

text \<open>
  \<open>ioutil.TempFile(dir, base)\<close> creates a new, empty file named by the pattern and a
  random suffix, and fails rather than open a file that exists. The path of the temporary
  file is the target path followed by the suffix.
\<close>

definition os_TempFile :: "env \<Rightarrow> string \<Rightarrow> world \<Rightarrow> string option \<times> world" where
  "os_TempFile e filename w =
     (let w = emit (IO TempFile) w;
          name = filename @ TempFile_suffix e
      in if TempFile_fails e \<or> TempFile_suffix e = [] \<or> disk w name \<noteq> None
         then (None, w)
         else (Some name, w\<lparr>disk := (disk w)(name \<mapsto> [])\<rparr>))"

definition os_Write :: "string \<Rightarrow> string \<Rightarrow> world \<Rightarrow> world" where
  "os_Write name bytes w = (emit (IO Encode) w)\<lparr>disk := (disk w)(name \<mapsto> bytes)\<rparr>"

text \<open>\<open>os.Remove\<close> deletes the file, or fails and leaves it.\<close>

definition os_Remove :: "env \<Rightarrow> string \<Rightarrow> world \<Rightarrow> world" where
  "os_Remove e name w =
     (let w = emit (IO Remove) w
      in if Remove_fails e then w else w\<lparr>disk := (disk w)(name := None)\<rparr>)"

text \<open>\<open>os.Rename\<close> moves the contents of the old path onto the new one, or does nothing.\<close>

definition os_Rename :: "env \<Rightarrow> string \<Rightarrow> string \<Rightarrow> world \<Rightarrow> bool \<times> world" where
  "os_Rename e old new w =
     (let w = emit (IO Rename) w
      in if Rename_fails e then (False, w)
         else (True, w\<lparr>disk := ((disk w)(new := disk w old))(old := None)\<rparr>))"

definition saveToFile ::
  "revision \<Rightarrow> env \<Rightarrow> string \<Rightarrow> table \<Rightarrow> world \<Rightarrow> error option \<times> world" where
  "saveToFile rv e filename cache w =
     (case os_TempFile e filename w of
        (None, w) \<Rightarrow> (Some CreateTempFailed, w)
      | (Some tmp, w) \<Rightarrow>
          if Encode_fails e then
            (let w = os_Write tmp (take (Encode_written e) (jsonEncode e cache)) w;
                 w = emit (IO Close) w;
                 w = os_Remove e tmp w
             in (Some EncodeFailed, w))
          else
            (let w = os_Write tmp (jsonEncode e cache) w;
                 w = emit (IO Close) w
             in if Close_fails e then (Some CloseFailed, os_Remove e tmp w)
                else
                  (case os_Rename e tmp filename w of
                     (False, w) \<Rightarrow> (Some RenameFailed, w)
                   | (True, w) \<Rightarrow>
                       (None, if rv = Rev2 then emit (IO Chmod) w else w))))"

text \<open>
  \<open>os.OpenFile\<close> with \<open>O_CREATE|O_RDONLY\<close> creates the file, empty, when it is missing.
  The decoder returns \<open>io.EOF\<close> on an empty stream; any other input is the JSON
  library's to judge.
\<close>

definition os_OpenFile :: "env \<Rightarrow> string \<Rightarrow> world \<Rightarrow> string option \<times> world" where
  "os_OpenFile e filename w =
     (let w = emit (IO OpenFile) w
      in if OpenFile_fails e then (None, w)
         else (case disk w filename of
                 None \<Rightarrow> (Some [], w\<lparr>disk := (disk w)(filename \<mapsto> [])\<rparr>)
               | Some bytes \<Rightarrow> (Some bytes, w)))"

definition json_Decode :: "env \<Rightarrow> string \<Rightarrow> json_error + table" where
  "json_Decode e bytes = (if bytes = [] then Inl EOF else jsonDecode e bytes)"

definition readFile :: "env \<Rightarrow> string \<Rightarrow> world \<Rightarrow> (error + table) \<times> world" where
  "readFile e filename w =
     (case os_OpenFile e filename w of
        (None, w) \<Rightarrow> (Inl OpenFailed, w)
      | (Some bytes, w) \<Rightarrow>
          (let w = emit (IO Decode) w
           in case json_Decode e bytes of
                Inl err \<Rightarrow>
                  if err \<noteq> EOF then (Inl DecodeFailed, emit (IO Close) w)
                  else (Inr fmempty, emit (IO Close) w)
              | Inr cache \<Rightarrow> (Inr cache, emit (IO Close) w)))"

subsection \<open>Operations with file access\<close>

definition Read :: "env \<Rightarrow> world \<Rightarrow> error option \<times> world" where
  "Read e w =
     (let w = emit Lock w
      in case readFile e (Filename (store w)) w of
           (Inl err, w) \<Rightarrow> (Some err, emit Unlock w)
         | (Inr cache, w) \<Rightarrow> (None, emit Unlock (wrCache cache w)))"

definition Save :: "revision \<Rightarrow> env \<Rightarrow> world \<Rightarrow> error option \<times> world" where
  "Save rv e w =
     (let (dirty, w) = rdDirty w
      in if \<not> dirty then (None, w)
         else
           let w = emit Lock w;
               (c, w) = getCache w
           in case saveToFile rv e (Filename (store w)) c w of
                (Some err, w) \<Rightarrow> (Some err, emit Unlock w)
              | (None, w) \<Rightarrow> (None, emit Unlock (wrDirty False w)))"

definition Delete :: "revision \<Rightarrow> env \<Rightarrow> string \<Rightarrow> world \<Rightarrow> error option \<times> world" where
  "Delete rv e ident w =
     (let w = emit Lock w;
          (c, w) = getCache w;
          w = wrCache (fmdrop ident c) w;
          w = wrDirty True w;
          (c, w) = getCache w
      in case saveToFile rv e (Filename (store w)) c w of
           (Some err, w) \<Rightarrow> (Some err, emit Unlock w)
         | (None, w) \<Rightarrow> (None, emit Unlock (wrDirty False w)))"

definition Reset :: "revision \<Rightarrow> env \<Rightarrow> world \<Rightarrow> error option \<times> world" where
  "Reset rv e w =
     (let w = emit Lock w;
          cache = fmempty;
          w = wrDirty True w
      in case saveToFile rv e (Filename (store w)) cache w of
           (Some err, w) \<Rightarrow> (Some err, emit Unlock w)
         | (None, w) \<Rightarrow> (None, emit Unlock (wrDirty False (wrCache cache w))))"

subsection \<open>The interface Cacher\<close>

text \<open>
  The methods of the interface \<open>Cacher\<close> that reach the table or the flag, as one type of
  calls with one type of answers, so that a statement can range over every operation.
\<close>

datatype call =
  CallIsChanged PushModel | CallPut PushModel | CallRead | CallSave | CallSize
  | CallGet string | CallDelete string | CallReset

datatype answer = Bool bool | Unit | Error "error option" | Int64 int | String string

fun Cacher :: "revision \<Rightarrow> env \<Rightarrow> call \<Rightarrow> world \<Rightarrow> answer \<times> world" where
  "Cacher rv e (CallIsChanged m) w = (case IsChanged m w of (b, w) \<Rightarrow> (Bool b, w))"
| "Cacher rv e (CallPut m) w = (Unit, Put m w)"
| "Cacher rv e CallRead w = (case Read e w of (r, w) \<Rightarrow> (Error r, w))"
| "Cacher rv e CallSave w = (case Save rv e w of (r, w) \<Rightarrow> (Error r, w))"
| "Cacher rv e CallSize w = (case Size w of (n, w) \<Rightarrow> (Int64 n, w))"
| "Cacher rv e (CallGet ident) w = (case Get ident w of (s, w) \<Rightarrow> (String s, w))"
| "Cacher rv e (CallDelete ident) w = (case Delete rv e ident w of (r, w) \<Rightarrow> (Error r, w))"
| "Cacher rv e CallReset w = (case Reset rv e w of (r, w) \<Rightarrow> (Error r, w))"

subsection \<open>Observations used in the statements\<close>

text \<open>The in-memory table: what \<open>getCache\<close> returns, the empty table for a nil map.\<close>

definition theTable :: "FileCache \<Rightarrow> table" where
  "theTable fc = (case stateCache fc of None \<Rightarrow> fmempty | Some t \<Rightarrow> t)"

text \<open>The events of one call, from the world before it and the world after it.\<close>

definition events :: "world \<Rightarrow> world \<Rightarrow> event list" where
  "events w w' = drop (length (trace w)) (trace w')"

text \<open>The values written to the dirty flag, in the order of the writes.\<close>

fun flagWrites :: "event list \<Rightarrow> bool list" where
  "flagWrites [] = []"
| "flagWrites (WrDirty b # es) = b # flagWrites es"
| "flagWrites (ev # es) = flagWrites es"

text \<open>
  The lock discipline on a trace: \<open>Lock\<close> is taken only when free, \<open>Unlock\<close> releases a
  held lock, every access to the flag, to the table or to a file happens while the lock
  is held, and the lock is free at the end.
\<close>

fun guarded_from :: "bool \<Rightarrow> event list \<Rightarrow> bool" where
  "guarded_from held [] = (\<not> held)"
| "guarded_from held (Lock # es) = (\<not> held \<and> guarded_from True es)"
| "guarded_from held (Unlock # es) = (held \<and> guarded_from False es)"
| "guarded_from held (ev # es) = (held \<and> guarded_from held es)"

definition guarded :: "event list \<Rightarrow> bool" where
  "guarded es = guarded_from False es"

text \<open>
  Following the spec's words for \<open>isChanged\<close>: true when no entry exists for the
  identifier, when the fingerprint cannot be computed, or when the computed fingerprint
  differs from the stored one.
\<close>

definition isChanged_spec :: "FileCache \<Rightarrow> PushModel \<Rightarrow> bool" where
  "isChanged_spec fc m =
     (case fmlookup (theTable fc) (GetId m) of
        None \<Rightarrow> True
      | Some stored \<Rightarrow>
          (case Marshal m of None \<Rightarrow> True | Some b \<Rightarrow> CheckSum fc b \<noteq> stored))"

subsection \<open>Concrete inputs\<close>

text \<open>
  An environment in which no system call fails. Its codec is a stand-in that writes the
  fingerprint of the identifier A between braces and reads it back; the JSON library
  itself is outside the repository.
\<close>

definition calm :: env where
  "calm =
     \<lparr>jsonEncode = (\<lambda>t. ''{'' @ index t ''A'' @ ''}''),
      jsonDecode = (\<lambda>s. if s = ''{}'' then Inr fmempty
                         else Inr (fmupd ''A'' (butlast (tl s)) fmempty)),
      TempFile_fails = False, TempFile_suffix = ''123'',
      Encode_fails = False, Encode_written = 0,
      Close_fails = False, Rename_fails = False, Remove_fails = False,
      OpenFile_fails = False\<rparr>"

text \<open>A hash that prefixes its input, and one that returns the empty string.\<close>

definition tagSum :: "string \<Rightarrow> string" where
  "tagSum b = ''#'' @ b"

definition nullSum :: "string \<Rightarrow> string" where
  "nullSum b = []"

text \<open>An entity that serialises, and one with the same identifier that does not.\<close>

definition cardA :: PushModel where
  "cardA = \<lparr>GetId = ''A'', Marshal = Some ''v1''\<rparr>"

definition brokenA :: PushModel where
  "brokenA = \<lparr>GetId = ''A'', Marshal = None\<rparr>"

text \<open>
  A store over the file \<open>state.json\<close> holding one fingerprint, with the file already
  written by an earlier save.
\<close>

definition oneEntry :: world where
  "oneEntry =
     \<lparr>store = \<lparr>Filename = ''state.json'', CheckSum = tagSum,
               stateCache = Some (fmupd ''A'' ''#v0'' fmempty), isDirty = True\<rparr>,
      disk = [''state.json'' \<mapsto> ''{#old}''],
      trace = []\<rparr>"

text \<open>A fresh store of the later revision, no file on disk.\<close>

definition fresh :: world where
  "fresh = \<lparr>store = NewFileCache ''state.json'' tagSum, disk = Map.empty, trace = []\<rparr>"

text \<open>
  A store whose entry for A is the empty string, with the hash that returns the empty
  string.
\<close>

definition blankEntry :: world where
  "blankEntry =
     \<lparr>store = \<lparr>Filename = ''state.json'', CheckSum = nullSum,
               stateCache = Some (fmupd ''A'' [] fmempty), isDirty = False\<rparr>,
      disk = Map.empty,
      trace = []\<rparr>"

subsection \<open>Strings that the file format does not keep\<close>







section \<open>What each operation computes\<close>

lemmas prims = emit_def rdDirty_def wrDirty_def wrCache_def os_TempFile_def os_Write_def
  os_Remove_def os_Rename_def os_OpenFile_def

lemma pair_collapse: "p = (fst p, snd p)"
  by simp

lemma events_append [simp]: "trace w' = trace w @ es \<Longrightarrow> events w w' = es"
  by (simp add: events_def)

lemma theTable_upd [simp]:
  "theTable (fc\<lparr>stateCache := Some t\<rparr>) = t"
  "theTable (fc\<lparr>isDirty := b\<rparr>) = theTable fc"
  by (simp_all add: theTable_def)

lemma makeCheckSum_upd [simp]:
  "makeCheckSum (fc\<lparr>stateCache := c\<rparr>) m = makeCheckSum fc m"
  "makeCheckSum (fc\<lparr>isDirty := b\<rparr>) m = makeCheckSum fc m"
  by (simp_all add: makeCheckSum_def split: option.splits)

lemma flagWrites_append [simp]: "flagWrites (xs @ ys) = flagWrites xs @ flagWrites ys"
proof (induction xs)
  case Nil
  show ?case by simp
next
  case (Cons a xs)
  then show ?case by (cases a) simp_all
qed

text \<open>
  The five ways through \<open>saveToFile\<close>. A temporary file stays behind after a failed
  rename, which nothing follows, and after a failed encode or close when the removal
  fails too.
\<close>

lemma saveToFile_cases:
  "saveToFile rv e f cache w =
    (let tmp = f @ TempFile_suffix e in
     if TempFile_fails e \<or> TempFile_suffix e = [] \<or> disk w tmp \<noteq> None
     then (Some CreateTempFailed, w\<lparr>trace := trace w @ [IO TempFile]\<rparr>)
     else if Encode_fails e
     then (Some EncodeFailed,
           w\<lparr>trace := trace w @ [IO TempFile, IO Encode, IO Close, IO Remove],
             disk := (if Remove_fails e
                      then (disk w)(tmp \<mapsto> take (Encode_written e) (jsonEncode e cache))
                      else disk w)\<rparr>)
     else if Close_fails e
     then (Some CloseFailed,
           w\<lparr>trace := trace w @ [IO TempFile, IO Encode, IO Close, IO Remove],
             disk := (if Remove_fails e then (disk w)(tmp \<mapsto> jsonEncode e cache)
                      else disk w)\<rparr>)
     else if Rename_fails e
     then (Some RenameFailed,
           w\<lparr>trace := trace w @ [IO TempFile, IO Encode, IO Close, IO Rename],
             disk := (disk w)(tmp \<mapsto> jsonEncode e cache)\<rparr>)
     else (None,
           w\<lparr>trace := trace w @ [IO TempFile, IO Encode, IO Close, IO Rename]
                        @ (if rv = Rev2 then [IO Chmod] else []),
             disk := (disk w)(f \<mapsto> jsonEncode e cache)\<rparr>))"
  apply (simp add: saveToFile_def prims Let_def)
  apply (auto simp: fun_upd_twist intro!: world.equality)
  done

lemma getCache_eq:
  "getCache w =
     (theTable (store w),
      w\<lparr>store := (store w)\<lparr>stateCache := Some (theTable (store w))\<rparr>,
        trace := trace w @ (if stateCache (store w) = None then [RdCache, WrCache]
                            else [RdCache])\<rparr>)"
  by (auto simp: getCache_def theTable_def prims split: option.splits
      intro!: world.equality FileCache.equality)

text \<open>
  What \<open>saveToFile\<close> returns and the files it leaves depend on the files it finds, not
  on the store or on the events so far; its events and its effect on the target follow.
\<close>

lemma saveToFile_events:
  "events w (snd (saveToFile rv e f cache w)) =
     IO TempFile #
       (if TempFile_fails e \<or> TempFile_suffix e = [] \<or> disk w (f @ TempFile_suffix e) \<noteq> None
        then []
        else if Encode_fails e \<or> Close_fails e then [IO Encode, IO Close, IO Remove]
        else IO Encode # IO Close # IO Rename #
               (if Rename_fails e then [] else if rv = Rev2 then [IO Chmod] else []))"
  by (simp add: saveToFile_cases Let_def events_def)

lemma saveToFile_events_ok:
  "fst (saveToFile rv e f cache w) = None \<Longrightarrow>
     events w (snd (saveToFile rv e f cache w)) =
       [IO TempFile, IO Encode, IO Close, IO Rename] @ (if rv = Rev2 then [IO Chmod] else [])"
  by (simp add: saveToFile_cases Let_def events_def split: if_splits)

lemma saveToFile_flagWrites [simp]:
  "flagWrites (events w (snd (saveToFile rv e f cache w))) = []"
  by (simp add: saveToFile_events)

lemma saveToFile_store [simp]:
  "store (snd (saveToFile rv e f cache w)) = store w"
  by (simp add: saveToFile_cases Let_def)

lemma saveToFile_target:
  "disk (snd (saveToFile rv e f cache w)) f =
     (if fst (saveToFile rv e f cache w) = None then Some (jsonEncode e cache) else disk w f)"
  by (simp add: saveToFile_cases Let_def)

lemma saveToFile_world:
  "disk w1 = disk w \<Longrightarrow>
   snd (saveToFile rv e f cache w1) =
     w1\<lparr>disk := disk (snd (saveToFile rv e f cache w)),
        trace := trace w1 @ events w (snd (saveToFile rv e f cache w))\<rparr>
   \<and> fst (saveToFile rv e f cache w1) = fst (saveToFile rv e f cache w)"
  by (simp add: saveToFile_cases Let_def events_def)

text \<open>
  \<open>Save\<close>, \<open>Delete\<close> and \<open>Reset\<close>, each in terms of the one call of \<open>saveToFile\<close>
  it makes.
\<close>

lemma after_write:
  assumes "disk w1 = disk w"
  shows "(case saveToFile rv e f cache w1 of
            (Some err, w2) \<Rightarrow> (Some err, emit Unlock w2)
          | (None, w2) \<Rightarrow> (None, emit Unlock (g w2)))
         = (fst (saveToFile rv e f cache w),
            emit Unlock
              ((if fst (saveToFile rv e f cache w) = None then g else (\<lambda>x. x))
                 (w1\<lparr>disk := disk (snd (saveToFile rv e f cache w)),
                     trace := trace w1 @ events w (snd (saveToFile rv e f cache w))\<rparr>)))"
  using saveToFile_world [OF assms, of rv e f cache]
  by (cases "saveToFile rv e f cache w1") (auto split: option.splits)

lemma Delete_eq:
  "Delete rv e k w =
     (fst (saveToFile rv e (Filename (store w)) (fmdrop k (theTable (store w))) w),
      \<lparr>store = (store w)\<lparr>stateCache := Some (fmdrop k (theTable (store w))),
                          isDirty := (fst (saveToFile rv e (Filename (store w))
                                             (fmdrop k (theTable (store w))) w) \<noteq> None)\<rparr>,
       disk = disk (snd (saveToFile rv e (Filename (store w)) (fmdrop k (theTable (store w))) w)),
       trace = trace w @ Lock # (if stateCache (store w) = None then [RdCache, WrCache] else [RdCache])
         @ [WrCache, WrDirty True, RdCache]
         @ events w (snd (saveToFile rv e (Filename (store w)) (fmdrop k (theTable (store w))) w))
         @ (if fst (saveToFile rv e (Filename (store w)) (fmdrop k (theTable (store w))) w) = None
            then [WrDirty False] else []) @ [Unlock]\<rparr>)"
  by (simp add: Delete_def getCache_eq Let_def after_write [where w = w] prims)

lemma Reset_eq:
  "Reset rv e w =
     (fst (saveToFile rv e (Filename (store w)) fmempty w),
      \<lparr>store = (if fst (saveToFile rv e (Filename (store w)) fmempty w) = None
                then (store w)\<lparr>stateCache := Some fmempty, isDirty := False\<rparr>
                else (store w)\<lparr>isDirty := True\<rparr>),
       disk = disk (snd (saveToFile rv e (Filename (store w)) fmempty w)),
       trace = trace w @ [Lock, WrDirty True]
         @ events w (snd (saveToFile rv e (Filename (store w)) fmempty w))
         @ (if fst (saveToFile rv e (Filename (store w)) fmempty w) = None
            then [WrCache, WrDirty False] else []) @ [Unlock]\<rparr>)"
  by (simp add: Reset_def Let_def after_write [where w = w] prims)

lemma Save_eq:
  "Save rv e w =
     (if \<not> isDirty (store w) then (None, w\<lparr>trace := trace w @ [RdDirty]\<rparr>)
      else
       (fst (saveToFile rv e (Filename (store w)) (theTable (store w)) w),
        \<lparr>store = (store w)\<lparr>stateCache := Some (theTable (store w)),
                          isDirty := (fst (saveToFile rv e (Filename (store w))
                                             (theTable (store w)) w) \<noteq> None)\<rparr>,
         disk = disk (snd (saveToFile rv e (Filename (store w)) (theTable (store w)) w)),
         trace = trace w @ RdDirty # Lock
           # (if stateCache (store w) = None then [RdCache, WrCache] else [RdCache])
           @ events w (snd (saveToFile rv e (Filename (store w)) (theTable (store w)) w))
           @ (if fst (saveToFile rv e (Filename (store w)) (theTable (store w)) w) = None
              then [WrDirty False] else []) @ [Unlock]\<rparr>))"
  by (simp add: Save_def getCache_eq Let_def after_write [where w = w] prims)

lemma Put_eq:
  "Put m w =
     w\<lparr>store := (store w)\<lparr>stateCache :=
                   Some (fmupd (GetId m) (makeCheckSum (store w) m) (theTable (store w))),
                 isDirty := True\<rparr>,
       trace := trace w @ Lock # (if stateCache (store w) = None then [RdCache, WrCache]
                                  else [RdCache]) @ [WrCache, WrDirty True, Unlock]\<rparr>"
  by (simp add: Put_def getCache_eq Let_def prims)

lemma Get_eq:
  "Get k w =
     (index (theTable (store w)) k,
      w\<lparr>store := (store w)\<lparr>stateCache := Some (theTable (store w))\<rparr>,
        trace := trace w @ Lock # (if stateCache (store w) = None then [RdCache, WrCache]
                                   else [RdCache]) @ [Unlock]\<rparr>)"
  by (simp add: Get_def getCache_eq Let_def prims)

lemma Size_eq:
  "Size w =
     (int (fcard (fmdom (theTable (store w)))),
      w\<lparr>store := (store w)\<lparr>stateCache := Some (theTable (store w))\<rparr>,
        trace := trace w @ Lock # (if stateCache (store w) = None then [RdCache, WrCache]
                                   else [RdCache]) @ [Unlock]\<rparr>)"
  by (simp add: Size_def getCache_eq Let_def prims)

lemma IsChanged_eq:
  "IsChanged m w =
     (index (theTable (store w)) (GetId m) = []
        \<or> index (theTable (store w)) (GetId m) \<noteq> makeCheckSum (store w) m,
      w\<lparr>store := (store w)\<lparr>stateCache := Some (theTable (store w))\<rparr>,
        trace := trace w @ Lock # (if stateCache (store w) = None then [RdCache, WrCache]
                                   else [RdCache])
                   @ (if index (theTable (store w)) (GetId m) = [] then [] else [RdCache])
                   @ [Unlock]\<rparr>)"
  by (simp add: IsChanged_def getCache_eq Let_def prims)

lemma readFile_cases:
  "readFile e f w =
     (if OpenFile_fails e then (Inl OpenFailed, w\<lparr>trace := trace w @ [IO OpenFile]\<rparr>)
      else let bytes = (case disk w f of None \<Rightarrow> [] | Some b \<Rightarrow> b);
               w' = w\<lparr>trace := trace w @ [IO OpenFile, IO Decode, IO Close],
                      disk := (disk w)(f \<mapsto> bytes)\<rparr>
           in case json_Decode e bytes of
                Inl EOF \<Rightarrow> (Inr fmempty, w')
              | Inl SyntaxError \<Rightarrow> (Inl DecodeFailed, w')
              | Inr cache \<Rightarrow> (Inr cache, w'))"
  by (auto simp: readFile_def prims Let_def split: option.splits sum.splits json_error.splits
      intro!: world.equality)

lemma Read_cases:
  "Read e w =
     (if OpenFile_fails e
      then (Some OpenFailed, w\<lparr>trace := trace w @ [Lock, IO OpenFile, Unlock]\<rparr>)
      else let f = Filename (store w);
               bytes = (case disk w f of None \<Rightarrow> [] | Some b \<Rightarrow> b);
               d = (disk w)(f \<mapsto> bytes)
           in case json_Decode e bytes of
                Inl EOF \<Rightarrow>
                  (None, w\<lparr>store := (store w)\<lparr>stateCache := Some fmempty\<rparr>, disk := d,
                     trace := trace w @ [Lock, IO OpenFile, IO Decode, IO Close, WrCache, Unlock]\<rparr>)
              | Inl SyntaxError \<Rightarrow>
                  (Some DecodeFailed, w\<lparr>disk := d,
                     trace := trace w @ [Lock, IO OpenFile, IO Decode, IO Close, Unlock]\<rparr>)
              | Inr cache \<Rightarrow>
                  (None, w\<lparr>store := (store w)\<lparr>stateCache := Some cache\<rparr>, disk := d,
                     trace := trace w @ [Lock, IO OpenFile, IO Decode, IO Close, WrCache, Unlock]\<rparr>))"
  by (auto simp: Read_def readFile_cases prims Let_def
      split: option.splits sum.splits json_error.splits)

lemma Save_clean: "\<not> isDirty (store w) \<Longrightarrow> Save rv e w = (None, emit RdDirty w)"
  by (simp add: Save_def rdDirty_def)

lemma Save_dirty:
  assumes "isDirty (store w)" and "Save rv e w = (r, w')"
  shows "(r = None \<longrightarrow> \<not> isDirty (store w')
            \<and> disk w' (Filename (store w)) = Some (jsonEncode e (theTable (store w))))
       \<and> (r \<noteq> None \<longrightarrow> isDirty (store w')
            \<and> disk w' (Filename (store w)) = disk w (Filename (store w)))
       \<and> IO TempFile \<in> set (events w w')
       \<and> theTable (store w') = theTable (store w)
       \<and> Filename (store w') = Filename (store w)"
  using assms saveToFile_target [of rv e "Filename (store w)" "theTable (store w)" w]
  by (auto simp: Save_eq saveToFile_events)

lemma Delete_facts:
  assumes "Delete rv e k w = (r, w')"
  shows "theTable (store w') = fmdrop k (theTable (store w))
       \<and> (r = None \<longrightarrow> \<not> isDirty (store w')
            \<and> disk w' (Filename (store w))
                = Some (jsonEncode e (fmdrop k (theTable (store w)))))
       \<and> (r \<noteq> None \<longrightarrow> isDirty (store w')
            \<and> disk w' (Filename (store w)) = disk w (Filename (store w)))
       \<and> IO TempFile \<in> set (events w w')
       \<and> Filename (store w') = Filename (store w)"
  using assms
    saveToFile_target [of rv e "Filename (store w)" "fmdrop k (theTable (store w))" w]
  by (auto simp: Delete_eq saveToFile_events)

lemma Reset_facts:
  assumes "Reset rv e w = (r, w')"
  shows "(r = None \<longrightarrow> theTable (store w') = fmempty \<and> \<not> isDirty (store w')
            \<and> disk w' (Filename (store w)) = Some (jsonEncode e fmempty))
       \<and> (r \<noteq> None \<longrightarrow> stateCache (store w') = stateCache (store w) \<and> isDirty (store w')
            \<and> disk w' (Filename (store w)) = disk w (Filename (store w)))
       \<and> IO TempFile \<in> set (events w w')
       \<and> Filename (store w') = Filename (store w)"
  using assms saveToFile_target [of rv e "Filename (store w)" fmempty w]
  by (auto simp: Reset_eq saveToFile_events)

section \<open>The durable write\<close>

text \<open>
  C1, as stated, at a store with one entry when both the close and the removal fail: the
  call returns an error, the target is as before, and the temporary file is still there,
  with the encoded table in it. The source calls \<open>os.Remove\<close> and discards its error.
\<close>

theorem saveToFile_temp_left_counterexample:
  "fst (saveToFile Rev2 (calm\<lparr>Close_fails := True, Remove_fails := True\<rparr>) ''state.json''
          (fmupd ''A'' ''#v0'' fmempty) oneEntry) = Some CloseFailed
   \<and> disk (snd (saveToFile Rev2 (calm\<lparr>Close_fails := True, Remove_fails := True\<rparr>)
                  ''state.json'' (fmupd ''A'' ''#v0'' fmempty) oneEntry)) ''state.json123''
       = Some ''{#v0}''
   \<and> disk oneEntry ''state.json123'' = None"
  by (simp add: saveToFile_cases Let_def calm_def oneEntry_def index_def)

text \<open>
  C1, amended. For every call of \<open>saveToFile\<close>, in both revisions: the call returns no
  error exactly when the temporary file is created and neither encoding, close nor rename
  fails. The target changes only by the rename: when the call returns an error (a failed
  rename included) the target is as before, and when it returns no error a rename has
  happened, the target holds the complete encoding of the table and the temporary file is
  gone. No file other than the target and the temporary file ever changes. When creating the
  temporary file fails, every file is as before. When encoding or closing fails, the
  removal of the temporary file is attempted and no other file has changed: the temporary
  file is gone, and every file as before, exactly when the removal does not fail.
  \<open>Save\<close>, \<open>Delete\<close> and \<open>Reset\<close> write through this routine, so each of them leaves
  the target as it was whenever it returns an error.
\<close>

theorem saveToFile_commit_point:
  assumes "saveToFile rv e f cache w = (r, w')"
  shows "(r = None) = (fst (os_TempFile e f w) \<noteq> None \<and> \<not> Encode_fails e
                        \<and> \<not> Close_fails e \<and> \<not> Rename_fails e)
       \<and> disk w' f = (if r = None then Some (jsonEncode e cache) else disk w f)
       \<and> (r = None \<longrightarrow> IO Rename \<in> set (events w w')
                         \<and> disk w' (f @ TempFile_suffix e) = None)
       \<and> (\<forall>p. p \<noteq> f \<and> p \<noteq> f @ TempFile_suffix e \<longrightarrow> disk w' p = disk w p)
       \<and> (fst (os_TempFile e f w) = None \<longrightarrow> disk w' = disk w)
       \<and> (\<forall>tmp. fst (os_TempFile e f w) = Some tmp \<and> (Encode_fails e \<or> Close_fails e)
            \<longrightarrow> IO Remove \<in> set (events w w')
                \<and> (\<forall>p. p \<noteq> tmp \<longrightarrow> disk w' p = disk w p)
                \<and> (disk w' tmp = None) = (\<not> Remove_fails e)
                \<and> (disk w' = disk w) = (\<not> Remove_fails e))
       \<and> (fst (Save rv e w) \<noteq> None \<longrightarrow>
            disk (snd (Save rv e w)) (Filename (store w)) = disk w (Filename (store w)))
       \<and> (fst (Delete rv e k w) \<noteq> None \<longrightarrow>
            disk (snd (Delete rv e k w)) (Filename (store w)) = disk w (Filename (store w)))
       \<and> (fst (Reset rv e w) \<noteq> None \<longrightarrow>
            disk (snd (Reset rv e w)) (Filename (store w)) = disk w (Filename (store w)))"
proof -
  have a: "(r = None) = (fst (os_TempFile e f w) \<noteq> None \<and> \<not> Encode_fails e
                          \<and> \<not> Close_fails e \<and> \<not> Rename_fails e)"
    using assms
    by (auto simp: saveToFile_cases Let_def os_TempFile_def emit_def split: if_splits)
  have b: "disk w' f = (if r = None then Some (jsonEncode e cache) else disk w f)"
    using assms by (auto simp: saveToFile_cases Let_def split: if_splits)
  have ev: "r = None \<longrightarrow> IO Rename \<in> set (events w w')
                         \<and> disk w' (f @ TempFile_suffix e) = None"
    using assms by (auto simp: saveToFile_cases Let_def events_def split: if_splits)
  have fr: "\<forall>p. p \<noteq> f \<and> p \<noteq> f @ TempFile_suffix e \<longrightarrow> disk w' p = disk w p"
    using assms by (auto simp: saveToFile_cases Let_def split: if_splits)
  have c: "fst (os_TempFile e f w) = None \<longrightarrow> disk w' = disk w"
    using assms
    by (auto simp: saveToFile_cases Let_def os_TempFile_def emit_def split: if_splits)
  have d: "\<forall>tmp. fst (os_TempFile e f w) = Some tmp \<and> (Encode_fails e \<or> Close_fails e)
             \<longrightarrow> IO Remove \<in> set (events w w')
                 \<and> (\<forall>p. p \<noteq> tmp \<longrightarrow> disk w' p = disk w p)
                 \<and> (disk w' tmp = None) = (\<not> Remove_fails e)
                 \<and> (disk w' = disk w) = (\<not> Remove_fails e)"
  proof (intro allI impI)
    fix tmp
    assume h: "fst (os_TempFile e f w) = Some tmp \<and> (Encode_fails e \<or> Close_fails e)"
    then have t: "tmp = f @ TempFile_suffix e" and n: "disk w tmp = None"
      by (auto simp: os_TempFile_def emit_def Let_def split: if_splits)
    have ok: "\<not> (TempFile_fails e \<or> TempFile_suffix e = [] \<or> disk w (f @ TempFile_suffix e) \<noteq> None)"
      using h by (auto simp: os_TempFile_def emit_def Let_def split: if_splits)
    have d1: "IO Remove \<in> set (events w w')"
      using assms h ok by (auto simp: saveToFile_cases Let_def events_def split: if_splits)
    have d2: "\<forall>p. p \<noteq> tmp \<longrightarrow> disk w' p = disk w p"
      using assms h ok t by (auto simp: saveToFile_cases Let_def split: if_splits)
    have d3: "(disk w' tmp = None) = (\<not> Remove_fails e)"
      using assms h ok t n by (auto simp: saveToFile_cases Let_def split: if_splits)
    have d4: "(disk w' = disk w) = (\<not> Remove_fails e)"
    proof
      assume "disk w' = disk w"
      with n d3 show "\<not> Remove_fails e" by simp
    next
      assume "\<not> Remove_fails e"
      with assms h ok show "disk w' = disk w"
        by (auto simp: saveToFile_cases Let_def split: if_splits)
    qed
    from d1 d2 d3 d4
    show "IO Remove \<in> set (events w w')
          \<and> (\<forall>p. p \<noteq> tmp \<longrightarrow> disk w' p = disk w p)
          \<and> (disk w' tmp = None) = (\<not> Remove_fails e)
          \<and> (disk w' = disk w) = (\<not> Remove_fails e)"
      by blast
  qed
  have s: "fst (Save rv e w) \<noteq> None \<longrightarrow>
             disk (snd (Save rv e w)) (Filename (store w)) = disk w (Filename (store w))"
    using Save_dirty [OF _ pair_collapse, of w rv e] Save_clean [of w rv e]
    by (cases "isDirty (store w)") auto
  have dl: "fst (Delete rv e k w) \<noteq> None \<longrightarrow>
             disk (snd (Delete rv e k w)) (Filename (store w)) = disk w (Filename (store w))"
    using Delete_facts [OF pair_collapse, of rv e k w] by simp
  have rs: "fst (Reset rv e w) \<noteq> None \<longrightarrow>
             disk (snd (Reset rv e w)) (Filename (store w)) = disk w (Filename (store w))"
    using Reset_facts [OF pair_collapse, of rv e w] by simp
  from a b ev fr c d s dl rs show ?thesis
    by blast
qed

text \<open>
  The theorem at a store with one entry: a write whose close fails and whose removal
  succeeds, and a write in which nothing fails.
\<close>

theorem saveToFile_commit_point_witness:
  "fst (saveToFile Rev2 (calm\<lparr>Close_fails := True\<rparr>) ''state.json''
          (fmupd ''A'' ''#v0'' fmempty) oneEntry) \<noteq> None
   \<and> disk (snd (saveToFile Rev2 (calm\<lparr>Close_fails := True\<rparr>) ''state.json''
                  (fmupd ''A'' ''#v0'' fmempty) oneEntry)) = disk oneEntry
   \<and> fst (saveToFile Rev2 calm ''state.json'' (fmupd ''A'' ''#v0'' fmempty) oneEntry) = None
   \<and> disk (snd (saveToFile Rev2 calm ''state.json'' (fmupd ''A'' ''#v0'' fmempty) oneEntry))
        ''state.json'' = Some ''{#v0}''"
proof -
  let ?bad = "calm\<lparr>Close_fails := True\<rparr>"
  let ?t = "fmupd ''A'' ''#v0'' fmempty"
  have c1: "Close_fails ?bad" "\<not> Remove_fails ?bad"
    by (simp_all add: calm_def)
  have c0: "fst (os_TempFile ?bad ''state.json'' oneEntry) = Some ''state.json123''"
    by (simp add: calm_def oneEntry_def os_TempFile_def emit_def Let_def)
  have c2: "fst (os_TempFile calm ''state.json'' oneEntry) \<noteq> None \<and> \<not> Encode_fails calm
            \<and> \<not> Close_fails calm \<and> \<not> Rename_fails calm"
    by (simp add: calm_def oneEntry_def os_TempFile_def emit_def Let_def)
  have c3: "jsonEncode calm ?t = ''{#v0}''"
    by (simp add: calm_def index_def)
  from saveToFile_commit_point [of Rev2 ?bad "''state.json''" ?t oneEntry, OF pair_collapse]
    c0 c1
  have p1: "fst (saveToFile Rev2 ?bad ''state.json'' ?t oneEntry) \<noteq> None
            \<and> disk (snd (saveToFile Rev2 ?bad ''state.json'' ?t oneEntry)) = disk oneEntry"
    by simp
  from saveToFile_commit_point [of Rev2 calm "''state.json''" ?t oneEntry, OF pair_collapse]
    c2 c3
  have p2: "fst (saveToFile Rev2 calm ''state.json'' ?t oneEntry) = None
            \<and> disk (snd (saveToFile Rev2 calm ''state.json'' ?t oneEntry)) ''state.json''
                = Some ''{#v0}''"
    by simp
  from p1 p2 show ?thesis
    by simp
qed

section \<open>Change detection\<close>

text \<open>
  C2, as stated, at a store whose entry for A is the empty string and whose hash returns
  the empty string: an entry exists, the fingerprint is computed and equals the stored
  one, and \<open>IsChanged\<close> answers true all the same, by its test on the length of the
  stored string.
\<close>

theorem IsChanged_blank_entry_counterexample:
  "fst (IsChanged cardA blankEntry) \<and> \<not> isChanged_spec (store blankEntry) cardA"
  by (simp add: IsChanged_eq isChanged_spec_def blankEntry_def cardA_def theTable_def
      index_def makeCheckSum_def nullSum_def)

text \<open>
  C2, amended. For every store and every entity, \<open>IsChanged\<close> returns true if and only
  if no entry exists for the identifier, or the fingerprint cannot be computed, or the
  computed fingerprint differs from the stored one, or the stored fingerprint is the empty
  string; and it leaves the table and the dirty flag as they were.
\<close>

theorem IsChanged_result:
  "fst (IsChanged m w)
     = (isChanged_spec (store w) m \<or> fmlookup (theTable (store w)) (GetId m) = Some [])
   \<and> theTable (store (snd (IsChanged m w))) = theTable (store w)
   \<and> isDirty (store (snd (IsChanged m w))) = isDirty (store w)"
  by (auto simp: IsChanged_eq isChanged_spec_def index_def makeCheckSum_def
      split: option.splits)

theorem IsChanged_result_witness:
  "fst (IsChanged cardA oneEntry) \<and> isChanged_spec (store oneEntry) cardA
   \<and> theTable (store (snd (IsChanged cardA oneEntry))) = fmupd ''A'' ''#v0'' fmempty"
proof -
  have "isChanged_spec (store oneEntry) cardA"
    by (simp add: isChanged_spec_def oneEntry_def cardA_def theTable_def tagSum_def)
  moreover have "theTable (store oneEntry) = fmupd ''A'' ''#v0'' fmempty"
    by (simp add: oneEntry_def theTable_def)
  ultimately show ?thesis
    using IsChanged_result [of cardA oneEntry] by simp
qed

text \<open>
  C8, as stated, at an entity whose serialisation fails, the same way in both calls:
  \<open>Put\<close> stores the empty string and \<open>IsChanged\<close> then answers true.
\<close>

theorem IsChanged_after_Put_counterexample:
  "fst (IsChanged brokenA (Put brokenA fresh))"
  by (simp add: IsChanged_eq Put_eq brokenA_def index_def makeCheckSum_def)

text \<open>
  C8, amended. For the same entity in both calls, \<open>IsChanged\<close> right after \<open>Put\<close> returns
  false exactly when the fingerprint computed for the entity is not the empty string,
  that is when its serialisation succeeds and the hash of it is not empty.
\<close>

theorem IsChanged_after_Put:
  "fst (IsChanged m (Put m w)) = (makeCheckSum (store w) m = [])"
  by (simp add: IsChanged_eq Put_eq index_def)

theorem IsChanged_after_Put_witness:
  "\<not> fst (IsChanged cardA (Put cardA fresh))"
proof -
  have "makeCheckSum (store fresh) cardA \<noteq> []"
    by (simp add: makeCheckSum_def fresh_def cardA_def NewFileCache_def tagSum_def)
  then show ?thesis
    using IsChanged_after_Put [of cardA fresh] by simp
qed

text \<open>
  C10. When the serialisation of an entity fails, \<open>Put\<close> stores the empty string under
  its identifier. \<open>Get\<close> then returns the empty string, as it does in any store that has
  no entry for the identifier; \<open>IsChanged\<close> returns true for every entity with that
  identifier; and \<open>Size\<close> counts the identifier among the keys, one more than before
  when it was absent.
\<close>

theorem failed_fingerprint_entry:
  assumes "Marshal m = None"
  shows "fmlookup (theTable (store (Put m w))) (GetId m) = Some []
       \<and> fst (Get (GetId m) (Put m w)) = []
       \<and> (\<forall>w0. fmlookup (theTable (store w0)) (GetId m) = None
              \<longrightarrow> fst (Get (GetId m) w0) = [])
       \<and> (\<forall>m'. GetId m' = GetId m \<longrightarrow> fst (IsChanged m' (Put m w)))
       \<and> fst (Size (Put m w)) = int (fcard (finsert (GetId m) (fmdom (theTable (store w)))))
       \<and> (fmlookup (theTable (store w)) (GetId m) = None
            \<longrightarrow> fst (Size (Put m w)) = fst (Size w) + 1)"
  using assms
  by (auto simp: Put_eq Get_eq Size_eq IsChanged_eq index_def makeCheckSum_def
      fcard_finsert_disjoint fmdom_notI)

theorem failed_fingerprint_entry_witness:
  "fmlookup (theTable (store (Put brokenA fresh))) ''A'' = Some []
   \<and> fst (Get ''A'' (Put brokenA fresh)) = [] \<and> fst (Get ''A'' fresh) = []
   \<and> fst (IsChanged cardA (Put brokenA fresh))
   \<and> fst (Size (Put brokenA fresh)) = 1 \<and> fst (Size fresh) = 0"
proof -
  have m: "Marshal brokenA = None" and i: "GetId brokenA = ''A''" "GetId cardA = ''A''"
    by (simp_all add: brokenA_def cardA_def)
  have n: "fmlookup (theTable (store fresh)) ''A'' = None"
    by (simp add: fresh_def NewFileCache_def theTable_def)
  have z: "fst (Size fresh) = 0"
    by (simp add: Size_eq fresh_def NewFileCache_def theTable_def)
  from failed_fingerprint_entry [OF m, of fresh] i n z show ?thesis
    by simp
qed

section \<open>Delete and Reset when the write fails\<close>

text \<open>
  C3, as stated, for \<open>Reset\<close> at a store with one entry when the rename fails: the call
  returns an error and the entry is still in the table. \<open>Reset\<close> builds the empty table
  in a local variable and assigns it to the store only after the write has succeeded.
\<close>

theorem Reset_failed_write_counterexample:
  "fst (Reset Rev2 (calm\<lparr>Rename_fails := True\<rparr>) oneEntry) = Some RenameFailed
   \<and> fmlookup (theTable (store (snd (Reset Rev2 (calm\<lparr>Rename_fails := True\<rparr>) oneEntry))))
        ''A'' = Some ''#v0''
   \<and> fmlookup (theTable (store oneEntry)) ''A'' = Some ''#v0''"
  by (simp add: Reset_def saveToFile_cases prims Let_def calm_def oneEntry_def theTable_def)

text \<open>
  C3, amended. \<open>Delete\<close> first removes the entry from the table and sets the flag, and
  then attempts the durable write of the new table: its result is the result of that
  write, the files afterwards are the files that write leaves, and the store afterwards
  holds the old table without the identifier whatever the write did, with the flag set
  exactly when the write failed. So after a failed write the entry is gone from the table
  while the file is as before. \<open>Delete\<close> of an absent identifier leaves the table as it
  is and attempts the write all the same. \<open>Reset\<close> sets the flag and attempts the
  durable write of the empty table without touching the table first: its result is the
  result of that write and the files are the files it leaves; when the write fails the
  store is the old one with the flag set, table unchanged, and the file is as before;
  when it succeeds the table is empty and the flag is cleared.
\<close>

theorem Delete_Reset_on_failure:
  assumes "Delete rv e k w = (rd, wd)" and "Reset rv e w = (rr, wr)"
  shows "rd = fst (saveToFile rv e (Filename (store w)) (fmdrop k (theTable (store w))) w)
       \<and> disk wd
           = disk (snd (saveToFile rv e (Filename (store w)) (fmdrop k (theTable (store w))) w))
       \<and> store wd = (store w)\<lparr>stateCache := Some (fmdrop k (theTable (store w))),
                               isDirty := (rd \<noteq> None)\<rparr>
       \<and> (rd \<noteq> None \<longrightarrow> disk wd (Filename (store w)) = disk w (Filename (store w)))
       \<and> (fmlookup (theTable (store w)) k = None \<longrightarrow> theTable (store wd) = theTable (store w))
       \<and> IO TempFile \<in> set (events w wd)
       \<and> WrCache \<in> set (takeWhile (\<lambda>x. x \<noteq> IO TempFile) (events w wd))
       \<and> flagWrites (takeWhile (\<lambda>x. x \<noteq> IO TempFile) (events w wd)) = [True]
       \<and> rr = fst (saveToFile rv e (Filename (store w)) fmempty w)
       \<and> disk wr = disk (snd (saveToFile rv e (Filename (store w)) fmempty w))
       \<and> store wr = (if rr = None
                     then (store w)\<lparr>stateCache := Some fmempty, isDirty := False\<rparr>
                     else (store w)\<lparr>isDirty := True\<rparr>)
       \<and> (rr \<noteq> None \<longrightarrow> disk wr (Filename (store w)) = disk w (Filename (store w)))
       \<and> IO TempFile \<in> set (events w wr)
       \<and> WrCache \<notin> set (takeWhile (\<lambda>x. x \<noteq> IO TempFile) (events w wr))
       \<and> flagWrites (takeWhile (\<lambda>x. x \<noteq> IO TempFile) (events w wr)) = [True]"
proof -
  let ?F = "Filename (store w)"
  let ?T = "fmdrop k (theTable (store w))"
  have wd: "rd = fst (Delete rv e k w)" "wd = snd (Delete rv e k w)"
    and wr: "rr = fst (Reset rv e w)" "wr = snd (Reset rv e w)"
    using assms by simp_all
  have d1: "rd = fst (saveToFile rv e ?F ?T w)
       \<and> disk wd = disk (snd (saveToFile rv e ?F ?T w))
       \<and> store wd = (store w)\<lparr>stateCache := Some ?T, isDirty := (rd \<noteq> None)\<rparr>"
    by (simp add: wd Delete_eq)
  have d2: "rd \<noteq> None \<longrightarrow> disk wd ?F = disk w ?F"
    using saveToFile_target [of rv e ?F ?T w] by (simp add: wd Delete_eq)
  have d3: "fmlookup (theTable (store w)) k = None \<longrightarrow> theTable (store wd) = theTable (store w)"
    by (simp add: wd Delete_eq fmdrop_idle fmdom_notI)
  have dev: "events w wd
       = Lock # (if stateCache (store w) = None then [RdCache, WrCache] else [RdCache])
           @ [WrCache, WrDirty True, RdCache]
           @ IO TempFile # tl (events w (snd (saveToFile rv e ?F ?T w)))
           @ (if rd = None then [WrDirty False] else []) @ [Unlock]"
    by (simp add: wd Delete_eq saveToFile_events)
  have d4: "IO TempFile \<in> set (events w wd)
       \<and> WrCache \<in> set (takeWhile (\<lambda>x. x \<noteq> IO TempFile) (events w wd))
       \<and> flagWrites (takeWhile (\<lambda>x. x \<noteq> IO TempFile) (events w wd)) = [True]"
    by (simp add: dev)
  have r1: "rr = fst (saveToFile rv e ?F fmempty w)
       \<and> disk wr = disk (snd (saveToFile rv e ?F fmempty w))
       \<and> store wr = (if rr = None
                     then (store w)\<lparr>stateCache := Some fmempty, isDirty := False\<rparr>
                     else (store w)\<lparr>isDirty := True\<rparr>)"
    by (simp add: wr Reset_eq)
  have r2: "rr \<noteq> None \<longrightarrow> disk wr ?F = disk w ?F"
    using saveToFile_target [of rv e ?F fmempty w] by (simp add: wr Reset_eq)
  have rev: "events w wr
       = [Lock, WrDirty True] @ IO TempFile # tl (events w (snd (saveToFile rv e ?F fmempty w)))
           @ (if rr = None then [WrCache, WrDirty False] else []) @ [Unlock]"
    by (simp add: wr Reset_eq saveToFile_events)
  have r4: "IO TempFile \<in> set (events w wr)
       \<and> WrCache \<notin> set (takeWhile (\<lambda>x. x \<noteq> IO TempFile) (events w wr))
       \<and> flagWrites (takeWhile (\<lambda>x. x \<noteq> IO TempFile) (events w wr)) = [True]"
    by (simp add: rev)
  from d1 d2 d3 d4 r1 r2 r4 show ?thesis
    by blast
qed

text \<open>
  The theorem at a store with one entry when the rename fails: \<open>Delete\<close> has removed
  the entry and set the flag, \<open>Reset\<close> has kept the entry and set the flag, and the file
  is as before after both.
\<close>

theorem Delete_Reset_on_failure_witness:
  "fst (Delete Rev2 (calm\<lparr>Rename_fails := True\<rparr>) ''A'' oneEntry) = Some RenameFailed
   \<and> fmlookup (theTable (store (snd (Delete Rev2 (calm\<lparr>Rename_fails := True\<rparr>) ''A'' oneEntry))))
       ''A'' = None
   \<and> isDirty (store (snd (Delete Rev2 (calm\<lparr>Rename_fails := True\<rparr>) ''A'' oneEntry)))
   \<and> disk (snd (Delete Rev2 (calm\<lparr>Rename_fails := True\<rparr>) ''A'' oneEntry)) ''state.json''
       = Some ''{#old}''
   \<and> fst (Reset Rev2 (calm\<lparr>Rename_fails := True\<rparr>) oneEntry) = Some RenameFailed
   \<and> store (snd (Reset Rev2 (calm\<lparr>Rename_fails := True\<rparr>) oneEntry)) = store oneEntry
   \<and> disk (snd (Reset Rev2 (calm\<lparr>Rename_fails := True\<rparr>) oneEntry)) ''state.json''
       = Some ''{#old}''"
proof -
  let ?e = "calm\<lparr>Rename_fails := True\<rparr>"
  have d: "fst (saveToFile Rev2 ?e ''state.json'' (fmdrop ''A'' (theTable (store oneEntry)))
                  oneEntry) = Some RenameFailed"
    by (simp add: saveToFile_cases Let_def calm_def oneEntry_def)
  have r: "fst (saveToFile Rev2 ?e ''state.json'' fmempty oneEntry) = Some RenameFailed"
    by (simp add: saveToFile_cases Let_def calm_def oneEntry_def)
  have f: "Filename (store oneEntry) = ''state.json''"
    "disk oneEntry ''state.json'' = Some ''{#old}''"
    "isDirty (store oneEntry)"
    by (simp_all add: oneEntry_def)
  have g: "disk (snd (saveToFile Rev2 ?e ''state.json''
                        (fmdrop ''A'' (theTable (store oneEntry))) oneEntry)) ''state.json''
             = Some ''{#old}''"
    "disk (snd (saveToFile Rev2 ?e ''state.json'' fmempty oneEntry)) ''state.json''
       = Some ''{#old}''"
    by (simp_all add: saveToFile_cases Let_def calm_def oneEntry_def)
  from Delete_Reset_on_failure [of Rev2 ?e "''A''" oneEntry, OF pair_collapse pair_collapse]
    d r f g
  show ?thesis
    by simp
qed

section \<open>Save\<close>

text \<open>
  C5, as stated, at a dirty store when the rename fails in both calls: two calls of
  \<open>Save\<close> with no mutation between them, both create a temporary file and both return
  an error. The first call leaves the store, the flag included, as it found it.
\<close>

theorem Save_twice_counterexample:
  "fst (Save Rev2 (calm\<lparr>Rename_fails := True\<rparr>) oneEntry) = Some RenameFailed
   \<and> IO TempFile \<in> set (events oneEntry (snd (Save Rev2 (calm\<lparr>Rename_fails := True\<rparr>) oneEntry)))
   \<and> store (snd (Save Rev2 (calm\<lparr>Rename_fails := True\<rparr>) oneEntry)) = store oneEntry
   \<and> fst (Save Rev2 (calm\<lparr>Rename_fails := True, TempFile_suffix := ''456''\<rparr>)
           (snd (Save Rev2 (calm\<lparr>Rename_fails := True\<rparr>) oneEntry))) = Some RenameFailed
   \<and> IO TempFile \<in> set (events (snd (Save Rev2 (calm\<lparr>Rename_fails := True\<rparr>) oneEntry))
        (snd (Save Rev2 (calm\<lparr>Rename_fails := True, TempFile_suffix := ''456''\<rparr>)
           (snd (Save Rev2 (calm\<lparr>Rename_fails := True\<rparr>) oneEntry)))))"
  by (simp add: Save_def getCache_eq saveToFile_cases prims Let_def calm_def oneEntry_def
      events_def theTable_def)

text \<open>
  C5, amended. When the dirty flag is false, \<open>Save\<close> returns no error and does nothing
  but read the flag: no file access. When the flag is true, \<open>Save\<close> performs the durable
  write of the table and returns its result; the flag is cleared exactly when the write
  succeeds, and the file then holds the table, while after a failed write the flag stays
  set and the file is as before. When a \<open>Save\<close> returns no error, the next \<open>Save\<close>
  with no mutation in between does no file access and returns no error.
\<close>

theorem Save_idempotent:
  assumes "Save rv e w = (r, w')"
  shows "(\<not> isDirty (store w) \<longrightarrow> r = None \<and> w' = emit RdDirty w)
       \<and> (isDirty (store w) \<longrightarrow>
            r = fst (saveToFile rv e (Filename (store w)) (theTable (store w)) w)
            \<and> IO TempFile \<in> set (events w w')
            \<and> isDirty (store w') = (r \<noteq> None)
            \<and> disk w' (Filename (store w))
                = (if r = None then Some (jsonEncode e (theTable (store w)))
                   else disk w (Filename (store w))))
       \<and> (r = None \<longrightarrow> Save rv e2 w' = (None, emit RdDirty w'))"
proof -
  have a: "\<not> isDirty (store w) \<longrightarrow> r = None \<and> w' = emit RdDirty w"
    using assms by (auto simp: Save_clean)
  have b: "isDirty (store w) \<longrightarrow>
            r = fst (saveToFile rv e (Filename (store w)) (theTable (store w)) w)"
    using assms
    by (auto simp: Save_def getCache_eq saveToFile_cases prims Let_def split: if_splits)
  have c: "isDirty (store w) \<longrightarrow> IO TempFile \<in> set (events w w')
            \<and> isDirty (store w') = (r \<noteq> None)
            \<and> disk w' (Filename (store w))
                = (if r = None then Some (jsonEncode e (theTable (store w)))
                   else disk w (Filename (store w)))"
    using Save_dirty [OF _ assms] by auto
  have d: "r = None \<longrightarrow> \<not> isDirty (store w')"
    using Save_dirty [OF _ assms] a by (cases "isDirty (store w)") (auto simp: emit_def)
  have "r = None \<longrightarrow> Save rv e2 w' = (None, emit RdDirty w')"
    using d by (auto simp: Save_clean)
  with a b c show ?thesis
    by blast
qed

theorem Save_idempotent_witness:
  "fst (Save Rev2 calm oneEntry) = None
   \<and> disk (snd (Save Rev2 calm oneEntry)) ''state.json'' = Some ''{#v0}''
   \<and> \<not> isDirty (store (snd (Save Rev2 calm oneEntry)))
   \<and> Save Rev2 calm (snd (Save Rev2 calm oneEntry))
       = (None, emit RdDirty (snd (Save Rev2 calm oneEntry)))"
proof -
  have d: "isDirty (store oneEntry)" "Filename (store oneEntry) = ''state.json''"
    by (simp_all add: oneEntry_def)
  have s: "fst (saveToFile Rev2 calm ''state.json'' (theTable (store oneEntry)) oneEntry) = None"
    by (simp add: saveToFile_cases calm_def oneEntry_def)
  have j: "jsonEncode calm (theTable (store oneEntry)) = ''{#v0}''"
    by (simp add: calm_def oneEntry_def theTable_def index_def)
  from Save_idempotent [of Rev2 calm oneEntry _ _ calm, OF pair_collapse] d s j show ?thesis
    by simp
qed

section \<open>Read and the round trip\<close>

text \<open>
  C6, as stated, at a fresh store whose file does not exist, when the file can neither be
  opened nor created: \<open>Read\<close> returns an error.
\<close>

theorem Read_open_fails_counterexample:
  "disk fresh (Filename (store fresh)) = None
   \<and> fst (Read (calm\<lparr>OpenFile_fails := True\<rparr>) fresh) = Some OpenFailed"
  by (simp add: Read_cases fresh_def)

text \<open>
  C6, amended. When opening the file fails, \<open>Read\<close> returns an error and changes neither
  the store nor the files. When opening succeeds: if the file does not exist or is empty,
  the table becomes empty and there is no error; if the file decodes to a table, that
  table replaces the one in memory and there is no error. If the file exists and cannot
  be parsed, \<open>Read\<close> returns an error and the store is as before, whether or not it could
  be opened. \<open>Read\<close> never changes the dirty flag.
\<close>

theorem Read_result:
  assumes "Read e w = (r, w')"
  shows "(OpenFile_fails e \<longrightarrow> r = Some OpenFailed \<and> store w' = store w \<and> disk w' = disk w)
       \<and> (\<not> OpenFile_fails e
            \<and> (disk w (Filename (store w)) = None \<or> disk w (Filename (store w)) = Some [])
            \<longrightarrow> r = None \<and> theTable (store w') = fmempty)
       \<and> (\<forall>bytes t. \<not> OpenFile_fails e \<and> disk w (Filename (store w)) = Some bytes
              \<and> json_Decode e bytes = Inr t
            \<longrightarrow> r = None \<and> theTable (store w') = t)
       \<and> (\<forall>bytes. \<not> OpenFile_fails e \<and> disk w (Filename (store w)) = Some bytes
              \<and> json_Decode e bytes = Inl EOF
            \<longrightarrow> r = None \<and> theTable (store w') = fmempty)
       \<and> (\<forall>bytes. disk w (Filename (store w)) = Some bytes
              \<and> json_Decode e bytes = Inl SyntaxError
            \<longrightarrow> r \<noteq> None \<and> store w' = store w)
       \<and> isDirty (store w') = isDirty (store w)"
  using assms
  by (auto simp: Read_cases Let_def json_Decode_def
      split: if_splits sum.splits json_error.splits)

theorem Read_result_witness:
  "fst (Read calm fresh) = None \<and> theTable (store (snd (Read calm fresh))) = fmempty
   \<and> fst (Read calm oneEntry) = None
   \<and> theTable (store (snd (Read calm oneEntry))) = fmupd ''A'' ''#old'' fmempty"
proof -
  have a: "\<not> OpenFile_fails calm" "disk fresh (Filename (store fresh)) = None"
    "disk oneEntry (Filename (store oneEntry)) = Some ''{#old}''"
    "json_Decode calm ''{#old}'' = Inr (fmupd ''A'' ''#old'' fmempty)"
    by (simp_all add: calm_def fresh_def oneEntry_def json_Decode_def)
  from Read_result [of calm fresh, OF pair_collapse]
    Read_result [of calm oneEntry, OF pair_collapse] a
  show ?thesis
    by simp
qed




section \<open>The dirty flag\<close>

text \<open>
  C4. For every call of the interface, the writes of the flag are exactly these: \<open>Put\<close>
  writes true; \<open>Delete\<close> and \<open>Reset\<close> write true and then, exactly when they return
  no error, false; \<open>Save\<close> writes false exactly when it found the flag set and returns
  no error, and nothing otherwise; \<open>Get\<close>, \<open>Size\<close>, \<open>IsChanged\<close> and \<open>Read\<close>,
  whatever \<open>Read\<close> returns, write nothing. The flag after the call is the last value
  written, or the old flag when nothing was written. The answer of \<open>Save\<close> on a set
  flag, of \<open>Delete\<close> and of \<open>Reset\<close> is the result of the durable write of the table
  they persist. Whenever a call writes false, it returned no error, the rename happened
  before that write and nothing but the permission change and \<open>Reset\<close>'s assignment of
  the table came between, and the file holds the encoding of the table.
\<close>

theorem dirty_flag_discipline:
  assumes "Cacher rv e c w = (a, w')"
  shows "flagWrites (events w w')
           = (case c of
                CallPut m \<Rightarrow> [True]
              | CallDelete k \<Rightarrow> (if a = Error None then [True, False] else [True])
              | CallReset \<Rightarrow> (if a = Error None then [True, False] else [True])
              | CallSave \<Rightarrow> (if isDirty (store w) \<and> a = Error None then [False] else [])
              | _ \<Rightarrow> [])
       \<and> isDirty (store w')
           = (if flagWrites (events w w') = [] then isDirty (store w)
              else last (flagWrites (events w w')))
       \<and> (case c of
             CallSave \<Rightarrow>
               a = Error (if isDirty (store w)
                          then fst (saveToFile rv e (Filename (store w)) (theTable (store w)) w)
                          else None)
           | CallDelete k \<Rightarrow>
               a = Error (fst (saveToFile rv e (Filename (store w))
                                 (fmdrop k (theTable (store w))) w))
           | CallReset \<Rightarrow> a = Error (fst (saveToFile rv e (Filename (store w)) fmempty w))
           | _ \<Rightarrow> True)
       \<and> (False \<in> set (flagWrites (events w w')) \<longrightarrow>
            a = Error None
            \<and> IO Rename \<in> set (takeWhile (\<lambda>x. x \<noteq> WrDirty False) (events w w'))
            \<and> set (tl (dropWhile (\<lambda>x. x \<noteq> IO Rename) (takeWhile (\<lambda>x. x \<noteq> WrDirty False) (events w w'))))
                 \<subseteq> {IO Chmod, WrCache}
            \<and> disk w' (Filename (store w')) = Some (jsonEncode e (theTable (store w'))))"
proof (cases c)
  case (CallIsChanged m)
  with assms show ?thesis
    by (auto simp: IsChanged_eq split: if_splits)
next
  case (CallPut m)
  with assms show ?thesis
    by (auto simp: Put_eq split: if_splits)
next
  case CallRead
  with assms show ?thesis
    by (auto simp: Read_cases Let_def split: if_splits sum.splits json_error.splits)
next
  case CallSave
  let ?S = "saveToFile rv e (Filename (store w)) (theTable (store w)) w"
  have aw: "a = Error (fst (Save rv e w))" "w' = snd (Save rv e w)"
    using assms CallSave by (auto split: prod.splits)
  show ?thesis
  proof (cases "isDirty (store w) \<and> fst ?S = None")
    case True
    then show ?thesis
      using saveToFile_target [of rv e "Filename (store w)" "theTable (store w)" w]
      by (simp add: CallSave aw Save_eq saveToFile_events_ok)
  next
    case False
    then show ?thesis
      by (auto simp: CallSave aw Save_eq)
  qed
next
  case CallSize
  with assms show ?thesis
    by (auto simp: Size_eq split: if_splits)
next
  case (CallGet k)
  with assms show ?thesis
    by (auto simp: Get_eq split: if_splits)
next
  case (CallDelete k)
  let ?S = "saveToFile rv e (Filename (store w)) (fmdrop k (theTable (store w))) w"
  have aw: "a = Error (fst (Delete rv e k w))" "w' = snd (Delete rv e k w)"
    using assms CallDelete by (auto split: prod.splits)
  show ?thesis
  proof (cases "fst ?S = None")
    case True
    then show ?thesis
      using saveToFile_target [of rv e "Filename (store w)" "fmdrop k (theTable (store w))" w]
      by (simp add: CallDelete aw Delete_eq saveToFile_events_ok)
  next
    case False
    then show ?thesis
      by (auto simp: CallDelete aw Delete_eq)
  qed
next
  case CallReset
  let ?S = "saveToFile rv e (Filename (store w)) fmempty w"
  have aw: "a = Error (fst (Reset rv e w))" "w' = snd (Reset rv e w)"
    using assms CallReset by (auto split: prod.splits)
  show ?thesis
  proof (cases "fst ?S = None")
    case True
    then show ?thesis
      using saveToFile_target [of rv e "Filename (store w)" fmempty w]
      by (simp add: CallReset aw Reset_eq saveToFile_events_ok)
  next
    case False
    then show ?thesis
      by (auto simp: CallReset aw Reset_eq)
  qed
qed

text \<open>
  The theorem at \<open>Put\<close> on a fresh store, and at \<open>Save\<close>, \<open>Delete\<close>, \<open>Reset\<close> and
  \<open>Get\<close> on a store with one entry, with a write that succeeds and one whose rename
  fails.
\<close>

theorem dirty_flag_discipline_witness:
  "isDirty (store (snd (Cacher Rev2 calm (CallPut cardA) fresh)))
   \<and> fst (Cacher Rev2 calm CallSave oneEntry) = Error None
   \<and> \<not> isDirty (store (snd (Cacher Rev2 calm CallSave oneEntry)))
   \<and> fst (Cacher Rev2 (calm\<lparr>Rename_fails := True\<rparr>) CallSave oneEntry)
       = Error (Some RenameFailed)
   \<and> isDirty (store (snd (Cacher Rev2 (calm\<lparr>Rename_fails := True\<rparr>) CallSave oneEntry)))
   \<and> fst (Cacher Rev2 calm (CallDelete ''A'') oneEntry) = Error None
   \<and> flagWrites (events oneEntry (snd (Cacher Rev2 calm (CallDelete ''A'') oneEntry)))
       = [True, False]
   \<and> \<not> isDirty (store (snd (Cacher Rev2 calm (CallDelete ''A'') oneEntry)))
   \<and> fst (Cacher Rev2 (calm\<lparr>Rename_fails := True\<rparr>) CallReset oneEntry)
       = Error (Some RenameFailed)
   \<and> flagWrites (events oneEntry (snd (Cacher Rev2 (calm\<lparr>Rename_fails := True\<rparr>) CallReset oneEntry)))
       = [True]
   \<and> isDirty (store (snd (Cacher Rev2 (calm\<lparr>Rename_fails := True\<rparr>) CallReset oneEntry)))
   \<and> isDirty (store (snd (Cacher Rev2 calm (CallGet ''A'') oneEntry)))"
proof -
  let ?e = "calm\<lparr>Rename_fails := True\<rparr>"
  have d: "isDirty (store oneEntry)" "Filename (store oneEntry) = ''state.json''"
    by (simp_all add: oneEntry_def)
  have ok: "fst (saveToFile Rev2 calm ''state.json'' (theTable (store oneEntry)) oneEntry) = None"
    "fst (saveToFile Rev2 calm ''state.json'' (fmdrop ''A'' (theTable (store oneEntry))) oneEntry)
       = None"
    by (simp_all add: saveToFile_cases Let_def calm_def oneEntry_def)
  have bad: "fst (saveToFile Rev2 ?e ''state.json'' (theTable (store oneEntry)) oneEntry)
       = Some RenameFailed"
    "fst (saveToFile Rev2 ?e ''state.json'' fmempty oneEntry) = Some RenameFailed"
    by (simp_all add: saveToFile_cases Let_def calm_def oneEntry_def)
  from dirty_flag_discipline [of Rev2 calm "CallPut cardA" fresh, OF pair_collapse]
  have p: "isDirty (store (snd (Cacher Rev2 calm (CallPut cardA) fresh)))"
    by simp
  from dirty_flag_discipline [of Rev2 calm CallSave oneEntry, OF pair_collapse] d ok
  have s1: "fst (Cacher Rev2 calm CallSave oneEntry) = Error None
            \<and> \<not> isDirty (store (snd (Cacher Rev2 calm CallSave oneEntry)))"
    by simp
  from dirty_flag_discipline [of Rev2 ?e CallSave oneEntry, OF pair_collapse] d bad
  have s2: "fst (Cacher Rev2 ?e CallSave oneEntry) = Error (Some RenameFailed)
            \<and> isDirty (store (snd (Cacher Rev2 ?e CallSave oneEntry)))"
    by simp
  from dirty_flag_discipline [of Rev2 calm "CallDelete ''A''" oneEntry, OF pair_collapse] d ok
  have dl: "fst (Cacher Rev2 calm (CallDelete ''A'') oneEntry) = Error None
            \<and> flagWrites (events oneEntry (snd (Cacher Rev2 calm (CallDelete ''A'') oneEntry)))
                = [True, False]
            \<and> \<not> isDirty (store (snd (Cacher Rev2 calm (CallDelete ''A'') oneEntry)))"
    by simp
  from dirty_flag_discipline [of Rev2 ?e CallReset oneEntry, OF pair_collapse] d bad
  have rs: "fst (Cacher Rev2 ?e CallReset oneEntry) = Error (Some RenameFailed)
            \<and> flagWrites (events oneEntry (snd (Cacher Rev2 ?e CallReset oneEntry))) = [True]
            \<and> isDirty (store (snd (Cacher Rev2 ?e CallReset oneEntry)))"
    by simp
  from dirty_flag_discipline [of Rev2 calm "CallGet ''A''" oneEntry, OF pair_collapse] d
  have g: "isDirty (store (snd (Cacher Rev2 calm (CallGet ''A'') oneEntry)))"
    by simp
  from p s1 s2 dl rs g show ?thesis
    by simp
qed

section \<open>The lock\<close>

lemma Save_trace:
  "\<exists>es. trace (snd (Save rv e w)) = trace w @ RdDirty # es"
  by (simp add: Save_eq)

lemma Delete_trace:
  "\<exists>es. trace (snd (Delete rv e k w)) = trace w @ Lock # es @ [Unlock]
        \<and> Lock \<notin> set es \<and> Unlock \<notin> set es"
  by (auto simp: Delete_eq saveToFile_events)

lemma Reset_trace:
  "\<exists>es. trace (snd (Reset rv e w)) = trace w @ Lock # es @ [Unlock]
        \<and> Lock \<notin> set es \<and> Unlock \<notin> set es"
  by (auto simp: Reset_eq saveToFile_events)

lemma Read_trace:
  "\<exists>es. trace (snd (Read e w)) = trace w @ Lock # es @ [Unlock]
        \<and> Lock \<notin> set es \<and> Unlock \<notin> set es"
  by (auto simp: Read_cases Let_def split: sum.splits json_error.splits)

lemma guarded_section:
  "Lock \<notin> set es \<Longrightarrow> Unlock \<notin> set es \<Longrightarrow> guarded_from True (es @ [Unlock])"
proof (induction es)
  case Nil
  show ?case by simp
next
  case (Cons a es)
  then show ?case by (cases a) simp_all
qed

lemma guarded_locked:
  "trace w' = trace w @ Lock # es @ [Unlock] \<Longrightarrow> Lock \<notin> set es \<Longrightarrow> Unlock \<notin> set es
     \<Longrightarrow> guarded (events w w')"
  by (simp add: guarded_def guarded_section)

text \<open>
  Every operation but \<open>Save\<close> takes the lock first, releases it last, and does all its
  accesses in between; stated for the earlier revision or a table that is not nil, where
  \<open>getCache\<close> does not replace the mutex.
\<close>

lemma siblings_guarded:
  assumes "c \<noteq> CallSave" and "rv = Rev1 \<or> stateCache (store w) \<noteq> None"
  shows "guarded (events w (snd (Cacher rv e c w)))"
proof (cases c)
  case (CallIsChanged m)
  show ?thesis
    by (rule guarded_locked
          [where es = "(if stateCache (store w) = None then [RdCache, WrCache] else [RdCache])
             @ (if index (theTable (store w)) (GetId m) = [] then [] else [RdCache])"])
       (simp_all add: CallIsChanged IsChanged_eq case_prod_beta)
next
  case (CallPut m)
  show ?thesis
    by (rule guarded_locked
          [where es = "(if stateCache (store w) = None then [RdCache, WrCache] else [RdCache])
             @ [WrCache, WrDirty True]"])
       (simp_all add: CallPut Put_eq)
next
  case CallRead
  obtain es where "trace (snd (Read e w)) = trace w @ Lock # es @ [Unlock]"
    "Lock \<notin> set es" "Unlock \<notin> set es"
    using Read_trace by blast
  then show ?thesis
    by (simp add: CallRead case_prod_beta guarded_def guarded_section)
next
  case CallSave
  with assms(1) show ?thesis
    by simp
next
  case CallSize
  show ?thesis
    by (rule guarded_locked
          [where es = "(if stateCache (store w) = None then [RdCache, WrCache] else [RdCache])"])
       (simp_all add: CallSize Size_eq case_prod_beta)
next
  case (CallGet k)
  show ?thesis
    by (rule guarded_locked
          [where es = "(if stateCache (store w) = None then [RdCache, WrCache] else [RdCache])"])
       (simp_all add: CallGet Get_eq case_prod_beta)
next
  case (CallDelete k)
  obtain es where "trace (snd (Delete rv e k w)) = trace w @ Lock # es @ [Unlock]"
    "Lock \<notin> set es" "Unlock \<notin> set es"
    using Delete_trace by blast
  then show ?thesis
    by (simp add: CallDelete case_prod_beta guarded_def guarded_section)
next
  case CallReset
  obtain es where "trace (snd (Reset rv e w)) = trace w @ Lock # es @ [Unlock]"
    "Lock \<notin> set es" "Unlock \<notin> set es"
    using Reset_trace by blast
  then show ?thesis
    by (simp add: CallReset case_prod_beta guarded_def guarded_section)
qed

text \<open>
  C9 fails for \<open>Save\<close>. Its first statement reads \<open>isDirty\<close>, and only then does it take
  the lock: the events of a \<open>Save\<close> never satisfy the lock discipline, in either
  revision, and when the flag is not set the call returns without having taken the lock
  at all.
\<close>

theorem Save_flag_read_unlocked:
  "\<not> guarded (events w (snd (Save rv e w)))
   \<and> (\<not> isDirty (store w) \<longrightarrow> events w (snd (Save rv e w)) = [RdDirty])"
proof -
  obtain es where "trace (snd (Save rv e w)) = trace w @ RdDirty # es"
    using Save_trace by blast
  then have "\<not> guarded (events w (snd (Save rv e w)))"
    by (simp add: guarded_def)
  moreover have "\<not> isDirty (store w) \<longrightarrow> events w (snd (Save rv e w)) = [RdDirty]"
    by (simp add: Save_clean emit_def)
  ultimately show ?thesis
    by simp
qed

theorem Save_flag_read_unlocked_witness:
  "events fresh (snd (Save Rev2 calm fresh)) = [RdDirty] \<and> \<not> guarded [RdDirty]"
proof -
  have "\<not> isDirty (store fresh)"
    by (simp add: fresh_def NewFileCache_def)
  with Save_flag_read_unlocked [of fresh Rev2 calm] show ?thesis
    by (simp add: guarded_def)
qed

end
